theory Spec2Isabelle
  imports Main "HOL-Library.Word" "HOL-Library.Sublist"
begin

section \<open>The process runner of export\_standalone\_monolithic\_windows.py\<close>

text \<open>
  The script launches external tools through \<^verbatim>\<open>process_command\<close>, which wraps a
  \<^verbatim>\<open>CLICommand\<close>: spawn a child with both output streams piped, let a daemon thread
  move stdout lines into a queue, poll the child while draining the queue, read stderr,
  kill and reap the child, and return its status.

  The embedding follows the source function by function. What the source obtains from
  the operating system and from Python's standard library (the child's behaviour, the
  scheduling of the reader thread, \<^verbatim>\<open>Popen\<close>, \<^verbatim>\<open>bytes.decode\<close>, \<^verbatim>\<open>str.split\<close>) is
  written down as an explicit environment: a \<open>world\<close> record that every operation takes
  and returns. Exceptions are values of type \<open>exn\<close> in the left summand of a sum, so every
  \<^verbatim>\<open>try\<close>/\<^verbatim>\<open>except\<close> of the source is a case distinction of the model. A computation that
  may wait for ever has an \<open>option\<close> result, \<open>None\<close> meaning that it does not return.
\<close>

subsection \<open>Bytes, text and exceptions\<close>

type_synonym byte = "8 word"
type_synonym bytes = "byte list"

text \<open>A Python \<^verbatim>\<open>str\<close> is a sequence of Unicode code points.\<close>

type_synonym str = "nat list"

datatype exn =
    FileNotFoundError
  | PermissionError
  | OSError
  | IndexError
  | AttributeError
  | TimeoutExpired
  | UnicodeDecodeError

subsection \<open>\<^verbatim>\<open>bytes.decode('utf-8', errors)\<close>\<close>

text \<open>
  The error handler named by the second argument of \<^verbatim>\<open>decode\<close>: \<^verbatim>\<open>'strict'\<close> raises
  \<^verbatim>\<open>UnicodeDecodeError\<close>, \<^verbatim>\<open>'ignore'\<close> skips the malformed bytes, \<^verbatim>\<open>'replace'\<close> puts
  U+FFFD in their place.
\<close>

datatype errors = Strict | Ignore | Replace

definition is_continuation :: "byte \<Rightarrow> bool" where
  "is_continuation b \<longleftrightarrow> 0x80 \<le> b \<and> b \<le> 0xBF"

definition cont_bits :: "byte \<Rightarrow> nat" where
  "cont_bits b = unat b mod 64"

text \<open>
  One step of the decoder on the bytes that are left: \<open>(Some c, n)\<close> when the first \<open>n\<close>
  bytes encode the code point \<open>c\<close>, \<open>(None, n)\<close> when the first \<open>n\<close> bytes are malformed
  and are handed to the error handler as one unit (an invalid start byte, a lead byte with
  the valid part of its continuation, or a sequence cut off by the end of the data).
  Overlong forms, surrogates and values above U+10FFFF are malformed.
\<close>

fun utf8_scan :: "bytes \<Rightarrow> nat option \<times> nat" where
  "utf8_scan [] = (None, 0)"
| "utf8_scan (b0 # rest) =
    (if b0 < 0x80 then (Some (unat b0), 1)
     else if b0 < 0xC2 then (None, 1)
     else if b0 < 0xE0 then
       (case rest of
          [] \<Rightarrow> (None, 1)
        | b1 # _ \<Rightarrow>
            if is_continuation b1
            then (Some ((unat b0 mod 32) * 64 + cont_bits b1), 2)
            else (None, 1))
     else if b0 < 0xF0 then
       (case rest of
          [] \<Rightarrow> (None, 1)
        | b1 # rest1 \<Rightarrow>
            if \<not> is_continuation b1 \<or> (b0 = 0xE0 \<and> b1 < 0xA0) \<or> (b0 = 0xED \<and> 0x9F < b1)
            then (None, 1)
            else (case rest1 of
                    [] \<Rightarrow> (None, 2)
                  | b2 # _ \<Rightarrow>
                      if is_continuation b2
                      then (Some ((unat b0 mod 16) * 4096 + cont_bits b1 * 64 + cont_bits b2), 3)
                      else (None, 2)))
     else if b0 < 0xF5 then
       (case rest of
          [] \<Rightarrow> (None, 1)
        | b1 # rest1 \<Rightarrow>
            if \<not> is_continuation b1 \<or> (b0 = 0xF0 \<and> b1 < 0x90) \<or> (b0 = 0xF4 \<and> 0x8F < b1)
            then (None, 1)
            else (case rest1 of
                    [] \<Rightarrow> (None, 2)
                  | b2 # rest2 \<Rightarrow>
                      if \<not> is_continuation b2 then (None, 2)
                      else (case rest2 of
                              [] \<Rightarrow> (None, 3)
                            | b3 # _ \<Rightarrow>
                                if is_continuation b3
                                then (Some ((unat b0 mod 8) * 262144 + cont_bits b1 * 4096
                                            + cont_bits b2 * 64 + cont_bits b3), 4)
                                else (None, 3))))
     else (None, 1))"

lemma utf8_scan_pos: "bs \<noteq> [] \<Longrightarrow> utf8_scan bs = (r, n) \<Longrightarrow> 0 < n"
  by (cases bs) (auto split: if_splits list.splits)

lemma utf8_scan_drop: "bs \<noteq> [] \<Longrightarrow> (r, n) = utf8_scan bs \<Longrightarrow> length bs - n < length bs"
  using utf8_scan_pos [of bs r n] by (cases bs) auto

definition replacement_character :: nat where
  "replacement_character = 0xFFFD"

function decode_utf8 :: "errors \<Rightarrow> bytes \<Rightarrow> exn + str" where
  "decode_utf8 h bs =
    (if bs = [] then Inr []
     else (case utf8_scan bs of
             (Some c, n) \<Rightarrow> map_sum id ((#) c) (decode_utf8 h (drop n bs))
           | (None, n) \<Rightarrow>
               (case h of
                  Strict \<Rightarrow> Inl UnicodeDecodeError
                | Ignore \<Rightarrow> decode_utf8 h (drop n bs)
                | Replace \<Rightarrow> map_sum id ((#) replacement_character) (decode_utf8 h (drop n bs)))))"
  by pat_completeness auto
termination
  by (relation "measure (\<lambda>(h, bs). length bs)") (auto simp: utf8_scan_drop)

declare decode_utf8.simps [simp del]

text \<open>\<^verbatim>\<open>str.split("\n")\<close>: the pieces between line feeds; never an empty list.\<close>

fun str_split_nl :: "str \<Rightarrow> str list" where
  "str_split_nl [] = [[]]"
| "str_split_nl (c # cs) =
    (if c = 10 then [] # str_split_nl cs
     else (case str_split_nl cs of
             [] \<Rightarrow> [[c]]
           | l # ls \<Rightarrow> (c # l) # ls))"

subsection \<open>The reader thread: \<^verbatim>\<open>enqueue_output\<close>\<close>

text \<open>
  \<^verbatim>\<open>out.readline()\<close> on the bytes still to come from the pipe: the line up to and
  including the first line feed, or everything when there is none, and the bytes left.
  At the end of the stream it returns \<^verbatim>\<open>b''\<close>.
\<close>

fun readline :: "bytes \<Rightarrow> bytes \<times> bytes" where
  "readline [] = ([], [])"
| "readline (b # bs) =
    (if b = 10 then ([b], bs)
     else (case readline bs of (l, r) \<Rightarrow> (b # l, r)))"

lemma readline_length: "readline out = (l, r) \<Longrightarrow> length out = length l + length r"
  by (induction out arbitrary: l r) (auto split: if_splits prod.splits)

lemma readline_nonempty: "out \<noteq> [] \<Longrightarrow> readline out = (l, r) \<Longrightarrow> l \<noteq> []"
  by (cases out) (auto split: if_splits prod.splits)

lemma readline_rest: "(line, rest) = readline out \<Longrightarrow> line \<noteq> [] \<Longrightarrow> length rest < length out"
  using readline_length [of out line rest] by simp

text \<open>
  \<^verbatim>\<open>for line in iter(out.readline, b''): queue.put(line)\<close>. The second argument is the
  queue so far; the result is the queue once the stream has ended.
\<close>

function enqueue_output :: "bytes \<Rightarrow> bytes list \<Rightarrow> bytes list" where
  "enqueue_output out queue =
    (case readline out of
       (line, rest) \<Rightarrow> if line = [] then queue else enqueue_output rest (queue @ [line]))"
  by pat_completeness auto
termination
  by (relation "measure (\<lambda>(out, queue). length out)") (auto simp: readline_rest)

declare enqueue_output.simps [simp del]

subsection \<open>Logging\<close>

text \<open>
  A logger is known by its name; \<^verbatim>\<open>logging.getLogger()\<close> is the root logger and the
  module's \<^verbatim>\<open>logger\<close> is \<^verbatim>\<open>logging.getLogger('o3de.gamejam')\<close>. The model records every
  call of \<^verbatim>\<open>info\<close>, \<^verbatim>\<open>warning\<close> and \<^verbatim>\<open>error\<close> in order, with the logger it was made on.
  Calls to a logger return normally: the handlers of Python's \<^verbatim>\<open>logging\<close> do not let
  their own failures reach the caller.
\<close>

datatype level = INFO | WARNING | ERROR

datatype logger = Logger string

definition root_logger :: logger where
  "root_logger = Logger ''root''"

definition module_logger :: logger where
  "module_logger = Logger ''o3de.gamejam''"

text \<open>
  The messages of the source. \<open>Line\<close> is a decoded output line or the decoded stderr
  block; \<open>Running\<close>, \<open>Terminating\<close> and \<open>Terminated\<close> are the f-strings of lines 143, 54
  and 45 with the values they interpolate; \<open>Failure\<close> is a fixed text logged with
  \<^verbatim>\<open>exc_info=True\<close> (lines 47, 57, 63) together with the exception being handled;
  \<open>Raised\<close> is \<^verbatim>\<open>logger.error(err)\<close> of line 164; \<open>Plain\<close> is a fixed text (line 180).
\<close>

datatype message =
    Line str
  | Running string nat "string list"
  | Terminating string nat
  | Terminated string nat "int option"
  | Failure string exn
  | Raised exn
  | Plain string

type_synonym log_record = "logger \<times> level \<times> message"

subsection \<open>The environment\<close>

text \<open>
  What a program does once started: the bytes it writes to standard output, what
  \<^verbatim>\<open>stderr.read()\<close> yields (the bytes written to standard error, or an exception of the
  read), after how many time units it exits by itself (\<open>None\<close>: never) and with which
  status, and what \<^verbatim>\<open>kill()\<close> does to it while it runs: raise, have no effect
  (\<open>Inr None\<close>), or end it after a delay with a status (\<open>Inr (Some (d, s))\<close>).
\<close>

record program =
  prog_stdout :: bytes
  prog_stderr :: "exn + bytes"
  prog_runtime :: "nat option"
  prog_status :: int
  prog_kill :: "exn + (nat \<times> int) option"

text \<open>
  A \<^verbatim>\<open>Popen\<close> object: \<open>p_args\<close> is its \<^verbatim>\<open>args\<close>, \<open>returncode\<close> its \<^verbatim>\<open>returncode\<close>
  (\<open>None\<close> until the child has been reaped); \<open>exit_time\<close> is the time on the world's
  clock at which the child ends (\<open>None\<close>: never) and \<open>exit_status\<close> the status it ends
  with. Objects live in a store indexed by pid, and a process handle is its pid, so two
  references to one process share its state.
\<close>

record proc =
  p_args :: "string list"
  returncode :: "int option"
  exit_time :: "nat option"
  exit_status :: int
  kill_effect :: "exn + (nat \<times> int) option"
  stdout_pipe :: bytes
  stderr_pipe :: "exn + bytes"

text \<open>
  The world: a clock in time units, the outcome of starting a program from an argument
  list, a working directory and an environment (\<open>Inl\<close>: \<^verbatim>\<open>Popen\<close> raises), the store of
  process objects, the number of threads started so far, the schedule of the reader
  thread, and the log. The \<open>n\<close>-th entry of \<open>reader_sched\<close> is the number of
  \<^verbatim>\<open>queue.put\<close> calls the reader thread completes between the main thread's \<open>n-1\<close>-th
  and \<open>n\<close>-th look at the queue; once the schedule is used up the main thread sees no
  further puts.
\<close>

record world =
  clock :: nat
  os_exec :: "string list \<Rightarrow> string option \<Rightarrow> (string \<times> string) list option \<Rightarrow> exn + program"
  next_pid :: nat
  procs :: "nat \<rightharpoonup> proc"
  threads :: nat
  reader_sched :: "nat list"
  log :: "log_record list"

definition emit :: "logger \<Rightarrow> level \<Rightarrow> message \<Rightarrow> world \<Rightarrow> world" where
  "emit lg lv m w = w\<lparr>log := log w @ [(lg, lv, m)]\<rparr>"

definition logger_info :: "logger \<Rightarrow> message \<Rightarrow> world \<Rightarrow> world" where
  "logger_info lg m w = emit lg INFO m w"

definition logger_warning :: "logger \<Rightarrow> message \<Rightarrow> world \<Rightarrow> world" where
  "logger_warning lg m w = emit lg WARNING m w"

definition logger_error :: "logger \<Rightarrow> message \<Rightarrow> world \<Rightarrow> world" where
  "logger_error lg m w = emit lg ERROR m w"

subsection \<open>\<^verbatim>\<open>subprocess.Popen\<close>\<close>

text \<open>
  \<^verbatim>\<open>Popen(args, cwd=cwd, env=env, stdout=PIPE, stderr=PIPE)\<close>. An empty argument list
  has no executable to start and raises; otherwise the world decides.
\<close>

definition popen ::
  "string list \<Rightarrow> string option \<Rightarrow> (string \<times> string) list option \<Rightarrow> world \<Rightarrow> (exn + nat) \<times> world"
where
  "popen a c e w =
    (if a = [] then (Inl IndexError, w)
     else (case os_exec w a c e of
             Inl err \<Rightarrow> (Inl err, w)
           | Inr prog \<Rightarrow>
               (Inr (next_pid w),
                w\<lparr>next_pid := Suc (next_pid w),
                  procs := (procs w)(next_pid w \<mapsto>
                    \<lparr>p_args = a, returncode = None,
                     exit_time = map_option (\<lambda>d. clock w + d) (prog_runtime prog),
                     exit_status = prog_status prog,
                     kill_effect = prog_kill prog,
                     stdout_pipe = prog_stdout prog,
                     stderr_pipe = prog_stderr prog\<rparr>)\<rparr>)))"

definition proc_exited :: "proc \<Rightarrow> nat \<Rightarrow> bool" where
  "proc_exited p now \<longleftrightarrow> (case exit_time p of None \<Rightarrow> False | Some t \<Rightarrow> t \<le> now)"

definition reap :: "nat \<Rightarrow> proc \<Rightarrow> world \<Rightarrow> world" where
  "reap pid p w = w\<lparr>procs := (procs w)(pid \<mapsto> p\<lparr>returncode := Some (exit_status p)\<rparr>)\<rparr>"

text \<open>
  \<^verbatim>\<open>poll()\<close>: the return code if the child has ended, else \<^verbatim>\<open>None\<close>. The polling loop
  of the source does not sleep, so time is counted in its iterations: a poll that finds
  the child running lets one time unit pass.
\<close>

definition popen_poll :: "nat \<Rightarrow> world \<Rightarrow> (exn + int option) \<times> world" where
  "popen_poll pid w =
    (case procs w pid of
       None \<Rightarrow> (Inl AttributeError, w)
     | Some p \<Rightarrow>
         (case returncode p of
            Some c \<Rightarrow> (Inr (Some c), w)
          | None \<Rightarrow>
              if proc_exited p (clock w) then (Inr (Some (exit_status p)), reap pid p w)
              else (Inr None, w\<lparr>clock := Suc (clock w)\<rparr>)))"

text \<open>
  \<^verbatim>\<open>kill()\<close>: nothing to do for a child that has been reaped; a child that has ended
  is reaped; a running child gets the signal, with the effect the program determines.
\<close>

definition popen_kill :: "nat \<Rightarrow> world \<Rightarrow> (exn + unit) \<times> world" where
  "popen_kill pid w =
    (case procs w pid of
       None \<Rightarrow> (Inl AttributeError, w)
     | Some p \<Rightarrow>
         (case returncode p of
            Some c \<Rightarrow> (Inr (), w)
          | None \<Rightarrow>
              if proc_exited p (clock w) then (Inr (), reap pid p w)
              else (case kill_effect p of
                      Inl err \<Rightarrow> (Inl err, w)
                    | Inr None \<Rightarrow> (Inr (), w)
                    | Inr (Some (d, s)) \<Rightarrow>
                        if proc_exited p (clock w + d) then (Inr (), w)
                        else (Inr (), w\<lparr>procs := (procs w)(pid \<mapsto>
                                p\<lparr>exit_time := Some (clock w + d), exit_status := s\<rparr>)\<rparr>))))"

text \<open>
  \<^verbatim>\<open>wait(timeout=t)\<close>: returns the return code once the child has ended, letting the
  clock run up to the child's end; raises \<^verbatim>\<open>TimeoutExpired\<close> after \<open>t\<close> time units if
  the child is still running then.
\<close>

definition popen_wait :: "nat \<Rightarrow> nat \<Rightarrow> world \<Rightarrow> (exn + int) \<times> world" where
  "popen_wait t pid w =
    (case procs w pid of
       None \<Rightarrow> (Inl AttributeError, w)
     | Some p \<Rightarrow>
         (case returncode p of
            Some c \<Rightarrow> (Inr c, w)
          | None \<Rightarrow>
              (case exit_time p of
                 None \<Rightarrow> (Inl TimeoutExpired, w\<lparr>clock := clock w + t\<rparr>)
               | Some x \<Rightarrow>
                   if x \<le> clock w + t
                   then (Inr (exit_status p), reap pid p (w\<lparr>clock := max (clock w) x\<rparr>))
                   else (Inl TimeoutExpired, w\<lparr>clock := clock w + t\<rparr>))))"

text \<open>
  Waiting without a timeout, as \<^verbatim>\<open>Popen.__exit__\<close> does on leaving the \<^verbatim>\<open>with\<close> block
  and as a blocking read of a pipe does: it does not return while the child runs for
  ever.
\<close>

definition await_exit :: "nat \<Rightarrow> world \<Rightarrow> world option" where
  "await_exit pid w =
    (case procs w pid of
       None \<Rightarrow> Some w
     | Some p \<Rightarrow>
         (case exit_time p of
            None \<Rightarrow> None
          | Some t \<Rightarrow> Some (w\<lparr>clock := max (clock w) t\<rparr>)))"

definition popen_exit :: "nat \<Rightarrow> world \<Rightarrow> world option" where
  "popen_exit pid w =
    (case procs w pid of
       None \<Rightarrow> Some w
     | Some p \<Rightarrow>
         (case returncode p of
            Some c \<Rightarrow> Some w
          | None \<Rightarrow> map_option (reap pid p) (await_exit pid w)))"

text \<open>\<^verbatim>\<open>process.stderr.read()\<close>: blocks until the child has closed the stream.\<close>

definition stderr_read :: "nat \<Rightarrow> world \<Rightarrow> ((exn + bytes) \<times> world) option" where
  "stderr_read pid w =
    (case procs w pid of
       None \<Rightarrow> Some (Inl AttributeError, w)
     | Some p \<Rightarrow> map_option (\<lambda>w'. (stderr_pipe p, w')) (await_exit pid w))"

subsection \<open>\<^verbatim>\<open>safe_kill_processes\<close>\<close>

text \<open>\<^verbatim>\<open>try: body except Exception: handler\<close>.\<close>

definition try_except ::
  "(exn + 'a) \<times> world \<Rightarrow> (exn \<Rightarrow> world \<Rightarrow> (exn + 'a) \<times> world) \<Rightarrow> (exn + 'a) \<times> world"
where
  "try_except r handler = (case r of (Inl e, w) \<Rightarrow> handler e w | (Inr v, w) \<Rightarrow> (Inr v, w))"

text \<open>The body of the \<^verbatim>\<open>try\<close> in \<^verbatim>\<open>on_terminate\<close> (line 45).\<close>

definition on_terminate_body :: "logger \<Rightarrow> nat \<Rightarrow> world \<Rightarrow> (exn + unit) \<times> world" where
  "on_terminate_body process_logger proc w =
    (case procs w proc of
       None \<Rightarrow> (Inl AttributeError, w)
     | Some p \<Rightarrow>
         (case p_args p of
            [] \<Rightarrow> (Inl IndexError, w)
          | a0 # _ \<Rightarrow> (Inr (), logger_info process_logger (Terminated a0 proc (returncode p)) w)))"

definition on_terminate :: "logger \<Rightarrow> nat \<Rightarrow> world \<Rightarrow> (exn + unit) \<times> world" where
  "on_terminate process_logger proc w =
    try_except (on_terminate_body process_logger proc w)
      (\<lambda>e w'. (Inr (), logger_error process_logger
         (Failure ''Exception encountered with termination request, with stacktrace:'' e) w'))"

text \<open>The body of the \<^verbatim>\<open>try\<close> in the first loop (lines 54 and 55).\<close>

definition kill_body :: "logger \<Rightarrow> nat \<Rightarrow> world \<Rightarrow> (exn + unit) \<times> world" where
  "kill_body process_logger proc w =
    (case procs w proc of
       None \<Rightarrow> (Inl AttributeError, w)
     | Some p \<Rightarrow>
         (case p_args p of
            [] \<Rightarrow> (Inl IndexError, w)
          | a0 # _ \<Rightarrow> popen_kill proc (logger_info process_logger (Terminating a0 proc) w)))"

text \<open>The first loop (lines 52 to 57): the \<^verbatim>\<open>try\<close> is inside the loop.\<close>

fun kill_loop :: "logger \<Rightarrow> nat list \<Rightarrow> world \<Rightarrow> (exn + unit) \<times> world" where
  "kill_loop process_logger [] w = (Inr (), w)"
| "kill_loop process_logger (proc # processes) w =
    (case try_except (kill_body process_logger proc w)
            (\<lambda>e w'. (Inr (), logger_error process_logger
               (Failure ''Unexpected exception ignored while terminating process, with stacktrace:'' e) w'))
     of
       (Inl e, w') \<Rightarrow> (Inl e, w')
     | (Inr u, w') \<Rightarrow> kill_loop process_logger processes w')"

text \<open>The second loop (lines 59 to 61), which the \<^verbatim>\<open>try\<close> of line 58 encloses.\<close>

fun wait_loop :: "logger \<Rightarrow> nat list \<Rightarrow> world \<Rightarrow> (exn + unit) \<times> world" where
  "wait_loop process_logger [] w = (Inr (), w)"
| "wait_loop process_logger (proc # processes) w =
    (case popen_wait 30 proc w of
       (Inl e, w') \<Rightarrow> (Inl e, w')
     | (Inr c, w') \<Rightarrow>
         (case on_terminate process_logger proc w' of
            (Inl e, w'') \<Rightarrow> (Inl e, w'')
          | (Inr u, w'') \<Rightarrow> wait_loop process_logger processes w''))"

text \<open>Lines 49 and 50: without a logger of its own the function uses the module's.\<close>

definition default_logger :: "logger option \<Rightarrow> logger" where
  "default_logger process_logger = (case process_logger of None \<Rightarrow> module_logger | Some l \<Rightarrow> l)"

definition safe_kill_processes :: "nat list \<Rightarrow> logger option \<Rightarrow> world \<Rightarrow> (exn + unit) \<times> world" where
  "safe_kill_processes processes process_logger w =
    (let lg = default_logger process_logger in
     case kill_loop lg processes w of
       (Inl e, w') \<Rightarrow> (Inl e, w')
     | (Inr u, w') \<Rightarrow>
         try_except (wait_loop lg processes w')
           (\<lambda>e w''. (Inr (), logger_error lg
              (Failure ''Unexpected exception while waiting for processes to terminate, with stacktrace:'' e) w'')))"

subsection \<open>\<^verbatim>\<open>CLICommand\<close>\<close>

record cli_command =
  args :: "string list"
  cwd :: "string option"
  env :: "(string \<times> string) list option"
  logger :: logger
  stdout_lines :: "str list"
  stderr_lines :: "str list"

text \<open>The constructor (lines 72 to 82).\<close>

definition CLICommand ::
  "string list \<Rightarrow> string option \<Rightarrow> logger \<Rightarrow> (string \<times> string) list option \<Rightarrow> cli_command"
where
  "CLICommand a c l e =
    \<lparr>args = a, cwd = c, env = e, logger = l, stdout_lines = [], stderr_lines = []\<rparr>"

text \<open>
  The queue between the reader thread and the main thread, with the thread's state:
  \<open>queue\<close> holds the lines put and not yet taken, \<open>unread\<close> the lines the thread has
  still to put. The thread runs \<^verbatim>\<open>enqueue_output\<close> on the child's standard output, so
  the lines it puts over its life are \<open>enqueue_output out []\<close>, in that order.
\<close>

record channel =
  queue :: "bytes list"
  unread :: "bytes list"

text \<open>Lines 145 to 148: \<^verbatim>\<open>q = Queue()\<close> and the start of the thread.\<close>

definition start_reader :: "nat \<Rightarrow> world \<Rightarrow> (exn + channel) \<times> world" where
  "start_reader process w =
    (case procs w process of
       None \<Rightarrow> (Inl AttributeError, w)
     | Some p \<Rightarrow>
         (Inr \<lparr>queue = [], unread = enqueue_output (stdout_pipe p) []\<rparr>,
          w\<lparr>threads := Suc (threads w)\<rparr>))"

text \<open>The progress of the reader thread before the main thread looks at the queue.\<close>

definition reader_runs :: "channel \<Rightarrow> world \<Rightarrow> channel \<times> world" where
  "reader_runs q w =
    (case reader_sched w of
       [] \<Rightarrow> (q, w)
     | n # ns \<Rightarrow>
         (q\<lparr>queue := queue q @ take n (unread q), unread := drop n (unread q)\<rparr>,
          w\<lparr>reader_sched := ns\<rparr>))"

text \<open>\<^verbatim>\<open>queue.get_nowait()\<close>; \<open>None\<close> stands for the exception \<^verbatim>\<open>Empty\<close>.\<close>

definition get_nowait :: "channel \<Rightarrow> world \<Rightarrow> bytes option \<times> channel \<times> world" where
  "get_nowait q w =
    (case reader_runs q w of
       (q', w') \<Rightarrow>
         (case queue q' of
            [] \<Rightarrow> (None, q', w')
          | line # rest \<Rightarrow> (Some line, q'\<lparr>queue := rest\<rparr>, w')))"

text \<open>\<^verbatim>\<open>queue.empty()\<close>.\<close>

definition queue_empty :: "channel \<Rightarrow> world \<Rightarrow> bool \<times> channel \<times> world" where
  "queue_empty q w = (case reader_runs q w of (q', w') \<Rightarrow> (queue q' = [], q', w'))"

text \<open>
  Lines 113 to 115 and 125 to 127: decode the line, append it to the captured lines,
  log it.
\<close>

definition capture_line :: "cli_command \<Rightarrow> bytes \<Rightarrow> world \<Rightarrow> (exn + unit) \<times> cli_command \<times> world" where
  "capture_line self line w =
    (case decode_utf8 Ignore line of
       Inl e \<Rightarrow> (Inl e, self, w)
     | Inr log_line \<Rightarrow>
         (Inr (), self\<lparr>stdout_lines := stdout_lines self @ [log_line]\<rparr>,
          logger_info (logger self) (Line log_line) w))"

text \<open>\<^verbatim>\<open>_poll_process\<close> (lines 104 to 115).\<close>

partial_function (option) poll_process ::
  "cli_command \<Rightarrow> nat \<Rightarrow> channel \<Rightarrow> world \<Rightarrow> ((exn + unit) \<times> cli_command \<times> channel \<times> world) option"
where
  "poll_process self process q w =
    (case popen_poll process w of
       (Inl e, w1) \<Rightarrow> Some (Inl e, self, q, w1)
     | (Inr (Some c), w1) \<Rightarrow> Some (Inr (), self, q, w1)
     | (Inr None, w1) \<Rightarrow>
         (case get_nowait q w1 of
            (None, q2, w2) \<Rightarrow> poll_process self process q2 w2
          | (Some line, q2, w2) \<Rightarrow>
              if line = [] then Some (Inr (), self, q2, w2)
              else (case capture_line self line w2 of
                      (Inl e, self3, w3) \<Rightarrow> Some (Inl e, self3, q2, w3)
                    | (Inr u, self3, w3) \<Rightarrow> poll_process self3 process q2 w3)))"

declare poll_process.simps [code]

text \<open>The loop of \<^verbatim>\<open>_cleanup_process\<close> (lines 119 to 127).\<close>

partial_function (option) flush_queue ::
  "cli_command \<Rightarrow> channel \<Rightarrow> world \<Rightarrow> ((exn + unit) \<times> cli_command \<times> channel \<times> world) option"
where
  "flush_queue self q w =
    (case queue_empty q w of
       (is_empty, q1, w1) \<Rightarrow>
         if is_empty then Some (Inr (), self, q1, w1)
         else (case get_nowait q1 w1 of
                 (None, q2, w2) \<Rightarrow> flush_queue self q2 w2
               | (Some line, q2, w2) \<Rightarrow>
                   if line = [] then Some (Inr (), self, q2, w2)
                   else (case capture_line self line w2 of
                           (Inl e, self3, w3) \<Rightarrow> Some (Inl e, self3, q2, w3)
                         | (Inr u, self3, w3) \<Rightarrow> flush_queue self3 q2 w3)))"

declare flush_queue.simps [code]

text \<open>\<^verbatim>\<open>_cleanup_process\<close> (lines 117 to 132).\<close>

definition cleanup_process ::
  "cli_command \<Rightarrow> nat \<Rightarrow> channel \<Rightarrow> world \<Rightarrow> ((exn + bytes) \<times> cli_command \<times> world) option"
where
  "cleanup_process self process q w =
    (case flush_queue self q w of
       None \<Rightarrow> None
     | Some (Inl e, self1, q1, w1) \<Rightarrow> Some (Inl e, self1, w1)
     | Some (Inr u, self1, q1, w1) \<Rightarrow>
         (case stderr_read process w1 of
            None \<Rightarrow> None
          | Some (Inl e, w2) \<Rightarrow> Some (Inl e, self1, w2)
          | Some (Inr stderr, w2) \<Rightarrow>
              (case safe_kill_processes [process] (Some (logger self1)) w2 of
                 (Inl e, w3) \<Rightarrow> Some (Inl e, self1, w3)
               | (Inr u', w3) \<Rightarrow> Some (Inr stderr, self1, w3))))"

text \<open>\<^verbatim>\<open>bool(ret)\<close> for a return code, which is \<^verbatim>\<open>None\<close> or an integer.\<close>

definition truthy :: "int option \<Rightarrow> bool" where
  "truthy ret \<longleftrightarrow> (case ret of None \<Rightarrow> False | Some c \<Rightarrow> c \<noteq> 0)"

text \<open>Lines 156 to 162, with \<open>ret\<close> the value read at line 154.\<close>

definition report_stderr ::
  "cli_command \<Rightarrow> int option \<Rightarrow> bytes \<Rightarrow> world \<Rightarrow> (exn + int option) \<times> cli_command \<times> world"
where
  "report_stderr self ret stderr w =
    (if stderr \<noteq> [] then
       (case decode_utf8 Ignore stderr of
          Inl e \<Rightarrow> (Inl e, self, w)
        | Inr err_txt \<Rightarrow>
            (Inr ret, self\<lparr>stderr_lines := str_split_nl err_txt\<rparr>,
             (if truthy ret then logger_error else logger_warning) (logger self) (Line err_txt) w))
     else (Inr ret, self, w))"

text \<open>
  The body of the \<^verbatim>\<open>with\<close> statement (lines 143 to 162). \<^verbatim>\<open>process.stdout.flush()\<close>
  at line 150 does nothing to a pipe opened for reading and has no counterpart here.
\<close>

definition run_body ::
  "cli_command \<Rightarrow> nat \<Rightarrow> world \<Rightarrow> ((exn + int option) \<times> cli_command \<times> world) option"
where
  "run_body self process w =
    (case args self of
       [] \<Rightarrow> Some (Inl IndexError, self, w)
     | a0 # _ \<Rightarrow>
         (case start_reader process (logger_info (logger self) (Running a0 process (args self)) w) of
            (Inl e, w1) \<Rightarrow> Some (Inl e, self, w1)
          | (Inr q, w1) \<Rightarrow>
              (case poll_process self process q w1 of
                 None \<Rightarrow> None
               | Some (Inl e, self2, q2, w2) \<Rightarrow> Some (Inl e, self2, w2)
               | Some (Inr u, self2, q2, w2) \<Rightarrow>
                   (case cleanup_process self2 process q2 w2 of
                      None \<Rightarrow> None
                    | Some (Inl e, self3, w3) \<Rightarrow> Some (Inl e, self3, w3)
                    | Some (Inr stderr, self3, w3) \<Rightarrow>
                        (case procs w3 process of
                           None \<Rightarrow> Some (Inl AttributeError, self3, w3)
                         | Some p \<Rightarrow> Some (report_stderr self3 (returncode p) stderr w3))))))"

text \<open>
  \<^verbatim>\<open>run\<close> (lines 134 to 166). Leaving the \<^verbatim>\<open>with\<close> block, normally or by an exception,
  runs \<^verbatim>\<open>Popen.__exit__\<close>; the handler of line 163 logs the exception and raises it
  again. The initial \<^verbatim>\<open>ret = 1\<close> of line 140 is never returned: either line 154
  overwrites it or the function leaves by \<^verbatim>\<open>raise\<close>.
\<close>

definition run :: "cli_command \<Rightarrow> world \<Rightarrow> ((exn + int option) \<times> cli_command \<times> world) option" where
  "run self w =
    (case popen (args self) (cwd self) (env self) w of
       (Inl e, w1) \<Rightarrow> Some (Inl e, self, logger_error (logger self) (Raised e) w1)
     | (Inr process, w1) \<Rightarrow>
         (case run_body self process w1 of
            None \<Rightarrow> None
          | Some (r, self2, w2) \<Rightarrow>
              (case popen_exit process w2 of
                 None \<Rightarrow> None
               | Some w3 \<Rightarrow>
                   (case r of
                      Inl e \<Rightarrow> Some (Inl e, self2, logger_error (logger self2) (Raised e) w3)
                    | Inr ret \<Rightarrow> Some (Inr ret, self2, w3)))))"

subsection \<open>\<^verbatim>\<open>process_command\<close>\<close>

text \<open>
  Lines 169 to 182. The command object is local to the call: only the result of
  \<^verbatim>\<open>run\<close> and the world come back.
\<close>

definition process_command ::
  "string list \<Rightarrow> string option \<Rightarrow> (string \<times> string) list option \<Rightarrow> world \<Rightarrow> ((exn + int option) \<times> world) option"
where
  "process_command a c e w =
    (if length a = 0
     then Some (Inr (Some 1), logger_error root_logger
            (Plain ''function `process_command` must be supplied a non-empty list of arguments'') w)
     else map_option (\<lambda>(r, self, w'). (r, w')) (run (CLICommand a c root_logger e) w))"

subsection \<open>Derived notions used in the statements\<close>

text \<open>\<^verbatim>\<open>proc.args\<close> of a handle, if the handle is a process object.\<close>

definition argv :: "world \<Rightarrow> nat \<Rightarrow> string list option" where
  "argv w pid = map_option p_args (procs w pid)"

text \<open>The child behind a handle is still running at the world's time.\<close>

definition running :: "world \<Rightarrow> nat \<Rightarrow> bool" where
  "running w pid \<longleftrightarrow> (case procs w pid of None \<Rightarrow> False | Some p \<Rightarrow> \<not> proc_exited p (clock w))"

text \<open>No empty line is in the queue or still to be put.\<close>

definition lines_ok :: "channel \<Rightarrow> bool" where
  "lines_ok q \<longleftrightarrow> [] \<notin> set (queue q) \<and> [] \<notin> set (unread q)"



text \<open>Two worlds that differ at most in what is left of the reader's schedule.\<close>

definition sched_only :: "world \<Rightarrow> world \<Rightarrow> bool" where
  "sched_only w w' \<longleftrightarrow> w' = w\<lparr>reader_sched := reader_sched w'\<rparr>"

text \<open>
  A process object agrees with the operating system: if it has a return code, the child
  has ended.
\<close>

definition sound :: "world \<Rightarrow> nat \<Rightarrow> bool" where
  "sound w pid \<longleftrightarrow>
     (\<exists>p. procs w pid = Some p \<and> (returncode p \<noteq> None \<longrightarrow> proc_exited p (clock w)))"

text \<open>
  The text a line is captured as, the lines that are in the queue or still to be put, in
  the order of their emission, and the relation between a command object before and
  after it has captured the lines \<open>taken\<close>.
\<close>

definition decoded :: "bytes \<Rightarrow> str" where
  "decoded line = (case decode_utf8 Ignore line of Inl e \<Rightarrow> [] | Inr t \<Rightarrow> t)"

definition pending :: "channel \<Rightarrow> bytes list" where
  "pending q = queue q @ unread q"

definition captured :: "cli_command \<Rightarrow> cli_command \<Rightarrow> bytes list \<Rightarrow> bool" where
  "captured self self' taken \<longleftrightarrow> stdout_lines self' = stdout_lines self @ map decoded taken"

subsection \<open>Example environments\<close>

text \<open>\<^verbatim>\<open>b"hello\n"\<close>, the output of \<^verbatim>\<open>echo hello\<close>.\<close>

definition hello_bytes :: bytes where
  "hello_bytes = [0x68, 0x65, 0x6C, 0x6C, 0x6F, 0x0A]"

text \<open>
  \<^verbatim>\<open>echo hello\<close>: writes one line to standard output and nothing to standard error,
  and exits with status 0 after two time units. Killed while running it would end with
  status 1.
\<close>

definition echo_hello :: program where
  "echo_hello =
    \<lparr>prog_stdout = hello_bytes, prog_stderr = Inr [], prog_runtime = Some 2,
     prog_status = 0, prog_kill = Inr (Some (0, 1))\<rparr>"

text \<open>
  A tool that writes \<^verbatim>\<open>b"boom\n"\<close> to standard error and exits with status 2, a tool
  that writes \<^verbatim>\<open>b"note"\<close> to standard error and exits with status 0, and a tool whose
  standard error cannot be read.
\<close>

definition grumble :: program where
  "grumble =
    \<lparr>prog_stdout = [], prog_stderr = Inr [0x62, 0x6F, 0x6F, 0x6D, 0x0A], prog_runtime = Some 1,
     prog_status = 2, prog_kill = Inr (Some (0, 1))\<rparr>"

definition chatty :: program where
  "chatty =
    \<lparr>prog_stdout = [], prog_stderr = Inr [0x6E, 0x6F, 0x74, 0x65], prog_runtime = Some 1,
     prog_status = 0, prog_kill = Inr (Some (0, 1))\<rparr>"

definition unreadable :: program where
  "unreadable =
    \<lparr>prog_stdout = [], prog_stderr = Inl OSError, prog_runtime = Some 1,
     prog_status = 0, prog_kill = Inr (Some (0, 1))\<rparr>"

text \<open>
  A world that knows the commands \<^verbatim>\<open>["echo", "hello"]\<close>, \<^verbatim>\<open>["grumble"]\<close>,
  \<^verbatim>\<open>["chatty"]\<close> and \<^verbatim>\<open>["unreadable"]\<close> and no other executable, with a given
  schedule of the reader thread.
\<close>

definition example_exec ::
  "string list \<Rightarrow> string option \<Rightarrow> (string \<times> string) list option \<Rightarrow> exn + program"
where
  "example_exec a c e =
    (if a = [''echo'', ''hello''] then Inr echo_hello
     else if a = [''grumble''] then Inr grumble
     else if a = [''chatty''] then Inr chatty
     else if a = [''unreadable''] then Inr unreadable
     else Inl FileNotFoundError)"

definition echo_world :: "nat list \<Rightarrow> world" where
  "echo_world sched =
    \<lparr>clock = 0, os_exec = example_exec,
     next_pid = 100, procs = Map.empty, threads = 0, reader_sched = sched, log = []\<rparr>"



text \<open>A world holding a process that ended at time 3 and has not been reaped.\<close>

definition finished :: proc where
  "finished =
    \<lparr>p_args = [''tool''], returncode = None, exit_time = Some 3, exit_status = 0,
     kill_effect = Inr (Some (0, 1)), stdout_pipe = [], stderr_pipe = Inr []\<rparr>"

definition finished_world :: world where
  "finished_world =
    \<lparr>clock = 5, os_exec = (\<lambda>a c e. Inl FileNotFoundError), next_pid = 8,
     procs = [7 \<mapsto> finished], threads = 0, reader_sched = [], log = []\<rparr>"

section \<open>Properties\<close>

subsection \<open>An empty argument list\<close>

text \<open>
  C5. For the empty argument list \<^verbatim>\<open>process_command\<close> logs one error on the root
  logger and returns 1. Nothing else in the world changes: no process object is created,
  no thread is started, the clock and the reader's schedule are untouched, so no
  \<^verbatim>\<open>CLICommand\<close> has run.
\<close>

theorem process_command_empty_args:
  "process_command [] c e w =
     Some (Inr (Some 1),
           w\<lparr>log := log w @ [(root_logger, ERROR,
                Plain ''function `process_command` must be supplied a non-empty list of arguments'')]\<rparr>)"
  by (simp add: process_command_def logger_error_def emit_def)

subsection \<open>A command that cannot be spawned\<close>

text \<open>
  C4. When \<^verbatim>\<open>Popen\<close> raises, \<^verbatim>\<open>run\<close> logs the exception at error severity on the
  command's logger and raises it again. The result carries no exit status, the command
  object is unchanged (no line has been captured), and the world differs only by the log
  record.
\<close>

theorem run_spawn_failure:
  assumes "fst (popen (args self) (cwd self) (env self) w) = Inl err"
  shows "run self w = Some (Inl err, self, w\<lparr>log := log w @ [(logger self, ERROR, Raised err)]\<rparr>)"
proof -
  have "popen (args self) (cwd self) (env self) w = (Inl err, w)"
    using assms by (auto simp: popen_def split: if_splits sum.splits)
  then show ?thesis by (simp add: run_def logger_error_def emit_def)
qed

theorem run_spawn_failure_witness:
  "fst (popen [''definitely-not-a-real-binary-xyz''] None None (echo_world [])) = Inl FileNotFoundError
   \<and> run (CLICommand [''definitely-not-a-real-binary-xyz''] None root_logger None) (echo_world []) =
       Some (Inl FileNotFoundError,
             CLICommand [''definitely-not-a-real-binary-xyz''] None root_logger None,
             (echo_world [])\<lparr>log := [(root_logger, ERROR, Raised FileNotFoundError)]\<rparr>)"
proof -
  let ?self = "CLICommand [''definitely-not-a-real-binary-xyz''] None root_logger None"
  have h: "fst (popen (args ?self) (cwd ?self) (env ?self) (echo_world [])) = Inl FileNotFoundError"
    by (simp add: popen_def CLICommand_def echo_world_def example_exec_def)
  from run_spawn_failure [OF h] h show ?thesis
    by (simp add: CLICommand_def echo_world_def)
qed

subsection \<open>Decoding\<close>

lemma decode_handlers:
  "\<exists>t t'. decode_utf8 Ignore bs = Inr t \<and> decode_utf8 Replace bs = Inr t' \<and> subseq t t'
     \<and> (decode_utf8 Strict bs = Inl UnicodeDecodeError \<longrightarrow> length t < length t')
     \<and> (\<forall>s. decode_utf8 Strict bs = Inr s \<longrightarrow> t = s \<and> t' = s)"
proof (induction bs rule: length_induct)
  case (1 bs)
  show ?case
  proof (cases "bs = []")
    case True
    then show ?thesis by (simp add: decode_utf8.simps)
  next
    case False
    obtain r n where rn: "utf8_scan bs = (r, n)" by (cases "utf8_scan bs")
    with False have "0 < n" using utf8_scan_pos by blast
    with False have "length (drop n bs) < length bs" by simp
    with 1 obtain t t' where
      t: "decode_utf8 Ignore (drop n bs) = Inr t" and
      t': "decode_utf8 Replace (drop n bs) = Inr t'" and
      sub: "subseq t t'" and
      strict_l: "decode_utf8 Strict (drop n bs) = Inl UnicodeDecodeError \<longrightarrow> length t < length t'" and
      strict_r: "\<forall>s. decode_utf8 Strict (drop n bs) = Inr s \<longrightarrow> t = s \<and> t' = s"
      by blast
    show ?thesis
    proof (cases r)
      case None
      have i: "decode_utf8 Ignore bs = Inr t"
        using False rn None t by (subst decode_utf8.simps) simp
      have r: "decode_utf8 Replace bs = Inr (replacement_character # t')"
        using False rn None t' by (subst decode_utf8.simps) simp
      have s: "decode_utf8 Strict bs = Inl UnicodeDecodeError"
        using False rn None by (subst decode_utf8.simps) simp
      have "length t \<le> length t'" using sub by (rule list_emb_length)
      then show ?thesis using i r s sub by auto
    next
      case (Some c)
      have i: "decode_utf8 Ignore bs = Inr (c # t)"
        using False rn Some t by (subst decode_utf8.simps) simp
      have r: "decode_utf8 Replace bs = Inr (c # t')"
        using False rn Some t' by (subst decode_utf8.simps) simp
      have s: "decode_utf8 Strict bs = map_sum id ((#) c) (decode_utf8 Strict (drop n bs))"
        using False rn Some by (subst decode_utf8.simps) simp
      show ?thesis
      proof (cases "decode_utf8 Strict (drop n bs)")
        case (Inl e)
        then show ?thesis using i r s sub strict_l by auto
      next
        case (Inr u)
        then show ?thesis using i r s sub strict_r by auto
      qed
    qed
  qed
qed

lemma decode_ignore_total: "\<exists>t. decode_utf8 Ignore bs = Inr t"
  using decode_handlers [of bs] by blast

text \<open>
  C6, as the code has it. Output is decoded with the handler \<^verbatim>\<open>'ignore'\<close>: decoding
  never raises, and malformed bytes are dropped, not replaced. The text \<open>t\<close> that is
  captured is what \<^verbatim>\<open>'replace'\<close> would give (\<open>t'\<close>) with the replacement characters for
  the malformed bytes left out: a subsequence of it, strictly shorter whenever the bytes
  are not valid UTF-8, and the strict decoding whenever they are. This is the text
  appended to the stdout lines, and the text that is logged and split into the stderr
  lines.
\<close>

theorem output_decoded_with_ignore:
  "\<exists>t t'. decode_utf8 Ignore bs = Inr t \<and> decode_utf8 Replace bs = Inr t' \<and> subseq t t'
     \<and> (decode_utf8 Strict bs = Inl UnicodeDecodeError \<longrightarrow> length t < length t')
     \<and> (\<forall>s. decode_utf8 Strict bs = Inr s \<longrightarrow> t = s)
     \<and> capture_line self bs w =
          (Inr (), self\<lparr>stdout_lines := stdout_lines self @ [t]\<rparr>,
           logger_info (logger self) (Line t) w)
     \<and> (bs \<noteq> [] \<longrightarrow> report_stderr self ret bs w =
          (Inr ret, self\<lparr>stderr_lines := str_split_nl t\<rparr>,
           (if truthy ret then logger_error else logger_warning) (logger self) (Line t) w))"
proof -
  from decode_handlers [of bs] obtain t t' where
    h: "decode_utf8 Ignore bs = Inr t" "decode_utf8 Replace bs = Inr t'" "subseq t t'"
       "decode_utf8 Strict bs = Inl UnicodeDecodeError \<longrightarrow> length t < length t'"
       "\<forall>s. decode_utf8 Strict bs = Inr s \<longrightarrow> t = s"
    by blast
  have "capture_line self bs w =
          (Inr (), self\<lparr>stdout_lines := stdout_lines self @ [t]\<rparr>,
           logger_info (logger self) (Line t) w)"
    using h(1) by (simp add: capture_line_def)
  moreover have "bs \<noteq> [] \<longrightarrow> report_stderr self ret bs w =
          (Inr ret, self\<lparr>stderr_lines := str_split_nl t\<rparr>,
           (if truthy ret then logger_error else logger_warning) (logger self) (Line t) w)"
    using h(1) by (simp add: report_stderr_def)
  ultimately show ?thesis using h by blast
qed

theorem output_decoded_with_ignore_witness:
  "decode_utf8 Strict [0xFF, 0x68, 0x0A] = Inl UnicodeDecodeError \<and> [0xFF, 0x68, 0x0A :: byte] \<noteq> []
   \<and> (\<exists>t t'. decode_utf8 Ignore [0xFF, 0x68, 0x0A] = Inr t
         \<and> decode_utf8 Replace [0xFF, 0x68, 0x0A] = Inr t' \<and> length t < length t'
         \<and> report_stderr (CLICommand [''echo'', ''hello''] None root_logger None) (Some 0)
              [0xFF, 0x68, 0x0A] (echo_world []) =
            (Inr (Some 0),
             (CLICommand [''echo'', ''hello''] None root_logger None)\<lparr>stderr_lines := str_split_nl t\<rparr>,
             logger_warning root_logger (Line t) (echo_world [])))
   \<and> decode_utf8 Strict hello_bytes = Inr [0x68, 0x65, 0x6C, 0x6C, 0x6F, 0x0A]
   \<and> decode_utf8 Ignore hello_bytes = Inr [0x68, 0x65, 0x6C, 0x6C, 0x6F, 0x0A]"
proof -
  let ?self = "CLICommand [''echo'', ''hello''] None root_logger None"
  have s: "decode_utf8 Strict [0xFF, 0x68, 0x0A] = Inl UnicodeDecodeError"
    by (simp add: decode_utf8.simps)
  have v: "decode_utf8 Strict hello_bytes = Inr [0x68, 0x65, 0x6C, 0x6C, 0x6F, 0x0A]"
    by (simp add: decode_utf8.simps hello_bytes_def)
  have l: "logger ?self = root_logger"
    by (simp add: CLICommand_def)
  from output_decoded_with_ignore [of "[0xFF, 0x68, 0x0A]" ?self "echo_world []" "Some 0"]
  obtain t t' where
    "decode_utf8 Ignore [0xFF, 0x68, 0x0A] = Inr t"
    "decode_utf8 Replace [0xFF, 0x68, 0x0A] = Inr t'"
    "decode_utf8 Strict [0xFF, 0x68, 0x0A] = Inl UnicodeDecodeError \<longrightarrow> length t < length t'"
    "[0xFF, 0x68, 0x0A :: byte] \<noteq> [] \<longrightarrow>
       report_stderr ?self (Some 0) [0xFF, 0x68, 0x0A] (echo_world []) =
       (Inr (Some 0), ?self\<lparr>stderr_lines := str_split_nl t\<rparr>,
        (if truthy (Some 0) then logger_error else logger_warning)
          (logger ?self) (Line t) (echo_world []))"
    by blast
  with s l have first: "\<exists>t t'. decode_utf8 Ignore [0xFF, 0x68, 0x0A] = Inr t
         \<and> decode_utf8 Replace [0xFF, 0x68, 0x0A] = Inr t' \<and> length t < length t'
         \<and> report_stderr ?self (Some 0) [0xFF, 0x68, 0x0A] (echo_world []) =
            (Inr (Some 0), ?self\<lparr>stderr_lines := str_split_nl t\<rparr>,
             logger_warning root_logger (Line t) (echo_world []))"
    by (auto simp: truthy_def)
  from output_decoded_with_ignore [of hello_bytes ?self "echo_world []" "Some 0"]
  obtain u where "decode_utf8 Ignore hello_bytes = Inr u"
    "\<forall>s. decode_utf8 Strict hello_bytes = Inr s \<longrightarrow> u = s"
    by blast
  with v have second: "decode_utf8 Ignore hello_bytes = Inr [0x68, 0x65, 0x6C, 0x6C, 0x6F, 0x0A]"
    by simp
  from s first v second show ?thesis by simp
qed

text \<open>
  The line \<^verbatim>\<open>b"\xffh\n"\<close> is captured as \<^verbatim>\<open>"h\n"\<close>: the invalid byte has left no
  replacement character behind, where \<^verbatim>\<open>'replace'\<close> would have put U+FFFD.
\<close>

theorem invalid_byte_is_dropped_not_replaced:
  "stdout_lines (fst (snd (capture_line (CLICommand [''echo'', ''hello''] None root_logger None)
       [0xFF, 0x68, 0x0A] (echo_world [])))) = [[0x68, 0x0A]]
   \<and> replacement_character \<notin> set [0x68, 0x0A]
   \<and> decode_utf8 Replace [0xFF, 0x68, 0x0A] = Inr [replacement_character, 0x68, 0x0A]"
proof (intro conjI)
  have i: "decode_utf8 Ignore [0xFF, 0x68, 0x0A] = Inr [0x68, 0x0A]"
    by (simp add: decode_utf8.simps)
  show "stdout_lines (fst (snd (capture_line (CLICommand [''echo'', ''hello''] None root_logger None)
       [0xFF, 0x68, 0x0A] (echo_world [])))) = [[0x68, 0x0A]]"
    by (simp add: capture_line_def i CLICommand_def)
  show "replacement_character \<notin> set [0x68, 0x0A]"
    by (simp add: replacement_character_def)
  show "decode_utf8 Replace [0xFF, 0x68, 0x0A] = Inr [replacement_character, 0x68, 0x0A]"
    by (simp add: decode_utf8.simps)
qed

subsection \<open>The termination primitive\<close>

lemma emit_frame:
  "log (emit lg lv m w) = log w @ [(lg, lv, m)]"
  "clock (emit lg lv m w) = clock w"
  "procs (emit lg lv m w) = procs w"
  "argv (emit lg lv m w) = argv w"
  by (auto simp: emit_def argv_def fun_eq_iff)













subsection \<open>The polling and draining loops\<close>

lemma enqueue_output_nonempty:
  "[] \<notin> set qs \<Longrightarrow> [] \<notin> set (enqueue_output out qs)"
proof (induction out qs rule: enqueue_output.induct)
  case (1 out qs)
  obtain line rest where lr: "readline out = (line, rest)" by (cases "readline out")
  show ?case
  proof (cases "line = []")
    case True
    with lr 1 show ?thesis by (subst enqueue_output.simps) simp
  next
    case False
    have "[] \<notin> set (enqueue_output rest (qs @ [line]))"
      using 1 lr False by auto
    with lr False show ?thesis by (subst enqueue_output.simps) simp
  qed
qed





lemma reader_runs_spec:
  assumes "reader_runs q w = (q', w')"
  shows "sched_only w w'"
    and "lines_ok q \<Longrightarrow> lines_ok q'"
    and "queue q \<noteq> [] \<Longrightarrow> queue q' \<noteq> []"
    and "length (queue q') + length (unread q') = length (queue q) + length (unread q)"
  using assms
  by (auto simp: reader_runs_def sched_only_def lines_ok_def split: list.splits
      dest: in_set_takeD in_set_dropD)

lemma get_nowait_spec:
  assumes "get_nowait q w = (r, q', w')"
  shows "sched_only w w'"
    and "lines_ok q \<Longrightarrow> lines_ok q' \<and> r \<noteq> Some []"
    and "queue q \<noteq> [] \<Longrightarrow> r \<noteq> None"
    and "r \<noteq> None \<Longrightarrow> length (queue q') + length (unread q') < length (queue q) + length (unread q)"
proof -
  obtain q1 w1 where rr: "reader_runs q w = (q1, w1)" by (cases "reader_runs q w")
  note s = reader_runs_spec [OF rr]
  show "sched_only w w'"
    using assms rr s(1) by (auto simp: get_nowait_def split: list.splits)
  show "lines_ok q \<Longrightarrow> lines_ok q' \<and> r \<noteq> Some []"
    using assms rr s(2) by (auto simp: get_nowait_def lines_ok_def split: list.splits)
  show "queue q \<noteq> [] \<Longrightarrow> r \<noteq> None"
    using assms rr s(3) by (auto simp: get_nowait_def split: list.splits)
  show "r \<noteq> None \<Longrightarrow> length (queue q') + length (unread q') < length (queue q) + length (unread q)"
    using assms rr s(4) by (auto simp: get_nowait_def split: list.splits)
qed

lemma queue_empty_spec:
  assumes "queue_empty q w = (b, q', w')"
  shows "sched_only w w'"
    and "lines_ok q \<Longrightarrow> lines_ok q'"
    and "\<not> b \<Longrightarrow> queue q' \<noteq> []"
    and "length (queue q') + length (unread q') = length (queue q) + length (unread q)"
proof -
  obtain q1 w1 where rr: "reader_runs q w = (q1, w1)" by (cases "reader_runs q w")
  note s = reader_runs_spec [OF rr]
  show "sched_only w w'" using assms rr s(1) by (auto simp: queue_empty_def)
  show "lines_ok q \<Longrightarrow> lines_ok q'" using assms rr s(2) by (auto simp: queue_empty_def)
  show "\<not> b \<Longrightarrow> queue q' \<noteq> []" using assms rr by (auto simp: queue_empty_def)
  show "length (queue q') + length (unread q') = length (queue q) + length (unread q)"
    using assms rr s(4) by (auto simp: queue_empty_def)
qed

lemma sched_only_fields:
  "sched_only w w' \<Longrightarrow> procs w' = procs w \<and> clock w' = clock w \<and> log w' = log w
     \<and> threads w' = threads w \<and> next_pid w' = next_pid w \<and> os_exec w' = os_exec w"
  by (cases w, cases w') (auto simp: sched_only_def)






lemma safe_kill_reaped:
  assumes "procs w pid = Some p" "p_args p = a0 # rest" "returncode p = Some c"
  shows "safe_kill_processes [pid] lg w =
    (Inr (), w\<lparr>log := log w @ [(default_logger lg, INFO, Terminating a0 pid),
                              (default_logger lg, INFO, Terminated a0 pid (Some c))]\<rparr>)"
  using assms
  by (simp add: safe_kill_processes_def kill_body_def try_except_def popen_kill_def
      popen_wait_def on_terminate_def on_terminate_body_def logger_info_def emit_def Let_def)

lemma safe_kill_unreaped:
  assumes "procs w pid = Some p" "p_args p = a0 # rest" "returncode p = None"
    "proc_exited p (clock w)"
  shows "safe_kill_processes [pid] lg w =
    (Inr (), w\<lparr>procs := (procs w)(pid \<mapsto> p\<lparr>returncode := Some (exit_status p)\<rparr>),
              log := log w @ [(default_logger lg, INFO, Terminating a0 pid),
                              (default_logger lg, INFO, Terminated a0 pid (Some (exit_status p)))]\<rparr>)"
  using assms
  by (simp add: safe_kill_processes_def kill_body_def try_except_def popen_kill_def
      popen_wait_def on_terminate_def on_terminate_body_def logger_info_def emit_def
      reap_def proc_exited_def Let_def)



lemma running_frame:
  "procs w' = procs w \<Longrightarrow> clock w' = clock w \<Longrightarrow> running w' pid = running w pid"
  by (simp add: running_def split: option.splits)


subsection \<open>The exit status\<close>



subsection \<open>Standard error\<close>



subsection \<open>Exceptions after the spawn\<close>




subsection \<open>Captured standard output\<close>

text \<open>
  What holds on every path on which \<^verbatim>\<open>run\<close> returns: the captured lines are the
  decoded lines of a prefix of what the child emitted, in the order of emission. Lines
  are never reordered or duplicated; they can only be missing at the end.
\<close>

lemma captured_nothing: "captured self self []"
  by (simp add: captured_def)

lemma captured_trans:
  "captured a b xs \<Longrightarrow> captured b c ys \<Longrightarrow> captured a c (xs @ ys)"
  by (simp add: captured_def)

lemma capture_line_decoded:
  "capture_line self line w =
     (Inr (), self\<lparr>stdout_lines := stdout_lines self @ [decoded line]\<rparr>,
      logger_info (logger self) (Line (decoded line)) w)"
  using decode_ignore_total [of line] by (auto simp: capture_line_def decoded_def)

lemma reader_runs_pending: "reader_runs q w = (q', w') \<Longrightarrow> pending q' = pending q"
  by (auto simp: reader_runs_def pending_def split: list.splits)

lemma get_nowait_pending:
  assumes "get_nowait q w = (r, q', w')"
  shows "pending q = (case r of None \<Rightarrow> [] | Some line \<Rightarrow> [line]) @ pending q'"
proof -
  obtain q1 w1 where rr: "reader_runs q w = (q1, w1)" by (cases "reader_runs q w")
  from reader_runs_pending [OF rr] assms rr show ?thesis
    by (auto simp: get_nowait_def pending_def split: list.splits)
qed

lemma queue_empty_pending: "queue_empty q w = (b, q', w') \<Longrightarrow> pending q' = pending q"
  by (auto simp: queue_empty_def dest: reader_runs_pending split: prod.splits)

lemma poll_process_captures:
  assumes "poll_process self process q w = Some y"
  shows "lines_ok q \<longrightarrow>
    (\<exists>taken. captured self (fst (snd y)) taken \<and> pending q = taken @ pending (fst (snd (snd y)))
       \<and> lines_ok (fst (snd (snd y))))"
proof (rule poll_process.raw_induct
    [where P = "\<lambda>self process q w y. lines_ok q \<longrightarrow>
       (\<exists>taken. captured self (fst (snd y)) taken \<and> pending q = taken @ pending (fst (snd (snd y)))
          \<and> lines_ok (fst (snd (snd y))))", OF _ assms],
    goal_cases)
  case (1 f self process q w y)
  note IH = 1(1) and body = 1(2)
  show ?case
  proof (rule impI)
    assume ok: "lines_ok q"
    obtain r1 w1 where pp: "popen_poll process w = (r1, w1)" by (cases "popen_poll process w")
    obtain r2 q2 w2 where g: "get_nowait q w1 = (r2, q2, w2)" by (cases "get_nowait q w1") auto
    have ok2: "lines_ok q2" "r2 \<noteq> Some []" using get_nowait_spec(2) [OF g] ok by auto
    note pe = get_nowait_pending [OF g]
    have stop: "\<exists>taken. captured self self taken \<and> pending q = taken @ pending q \<and> lines_ok q"
      using ok captured_nothing [of self] by (intro exI [of _ "[]"]) simp
    show "\<exists>taken. captured self (fst (snd y)) taken \<and> pending q = taken @ pending (fst (snd (snd y)))
       \<and> lines_ok (fst (snd (snd y)))"
    proof (cases r1)
      case (Inl e)
      with body pp stop show ?thesis by auto
    next
      case (Inr rc)
      show ?thesis
      proof (cases rc)
        case (Some c)
        with body pp Inr stop show ?thesis by auto
      next
        case None
        show ?thesis
        proof (cases r2)
          case None2: None
          with body pp Inr None g have "f self process q2 w2 = Some y" by simp
          from IH [OF this] ok2 pe None2 show ?thesis by simp
        next
          case (Some line)
          with ok2 have ne: "line \<noteq> []" by simp
          let ?self3 = "self\<lparr>stdout_lines := stdout_lines self @ [decoded line]\<rparr>"
          let ?w3 = "logger_info (logger self) (Line (decoded line)) w2"
          from body pp Inr None g Some ne capture_line_decoded [of self line w2]
          have "f ?self3 process q2 ?w3 = Some y" by simp
          from IH [OF this] ok2 obtain taken where
            t: "captured ?self3 (fst (snd y)) taken" "pending q2 = taken @ pending (fst (snd (snd y)))"
               "lines_ok (fst (snd (snd y)))"
            by auto
          have "captured self ?self3 [line]" by (simp add: captured_def)
          from captured_trans [OF this t(1)] t pe Some show ?thesis
            by (intro exI [of _ "line # taken"]) simp
        qed
      qed
    qed
  qed
qed

lemma flush_queue_captures:
  assumes "flush_queue self q w = Some y"
  shows "lines_ok q \<longrightarrow>
    (\<exists>taken. captured self (fst (snd y)) taken \<and> pending q = taken @ pending (fst (snd (snd y))))"
proof (rule flush_queue.raw_induct
    [where P = "\<lambda>self q w y. lines_ok q \<longrightarrow>
       (\<exists>taken. captured self (fst (snd y)) taken \<and> pending q = taken @ pending (fst (snd (snd y))))",
     OF _ assms],
    goal_cases)
  case (1 f self q w y)
  note IH = 1(1) and body = 1(2)
  show ?case
  proof (rule impI)
    assume ok: "lines_ok q"
    obtain b q1 w1 where e: "queue_empty q w = (b, q1, w1)" by (cases "queue_empty q w") auto
    have ok1: "lines_ok q1" using queue_empty_spec(2) [OF e] ok by simp
    note p1 = queue_empty_pending [OF e]
    obtain r2 q2 w2 where g: "get_nowait q1 w1 = (r2, q2, w2)" by (cases "get_nowait q1 w1") auto
    have ok2: "lines_ok q2" "r2 \<noteq> Some []" using get_nowait_spec(2) [OF g] ok1 by auto
    note pe = get_nowait_pending [OF g]
    show "\<exists>taken. captured self (fst (snd y)) taken \<and> pending q = taken @ pending (fst (snd (snd y)))"
    proof (cases b)
      case True
      with body e p1 captured_nothing [of self] show ?thesis
        by (intro exI [of _ "[]"]) auto
    next
      case False
      show ?thesis
      proof (cases r2)
        case None
        with body e False g have "f self q2 w2 = Some y" by simp
        from IH [OF this] ok2 pe p1 None show ?thesis by simp
      next
        case (Some line)
        with ok2 have ne: "line \<noteq> []" by simp
        let ?self3 = "self\<lparr>stdout_lines := stdout_lines self @ [decoded line]\<rparr>"
        let ?w3 = "logger_info (logger self) (Line (decoded line)) w2"
        from body e False g Some ne capture_line_decoded [of self line w2]
        have "f ?self3 q2 ?w3 = Some y" by simp
        from IH [OF this] ok2 obtain taken where
          t: "captured ?self3 (fst (snd y)) taken" "pending q2 = taken @ pending (fst (snd (snd y)))"
          by auto
        have "captured self ?self3 [line]" by (simp add: captured_def)
        from captured_trans [OF this t(1)] t pe p1 Some show ?thesis
          by (intro exI [of _ "line # taken"]) simp
      qed
    qed
  qed
qed


lemma cleanup_process_captures:
  assumes "cleanup_process self pid q w = Some (r, self', w')" "lines_ok q"
  shows "\<exists>taken. captured self self' taken \<and> prefix taken (pending q)"
proof -
  from assms(1) obtain r1 self1 q1 w1 where
    fq: "flush_queue self q w = Some (r1, self1, q1, w1)"
    by (cases "flush_queue self q w") (auto simp: cleanup_process_def)
  from flush_queue_captures [OF fq] assms(2) obtain taken where
    t: "captured self self1 taken" "pending q = taken @ pending q1"
    by auto
  have "self' = self1"
    using assms(1) fq
    by (auto simp: cleanup_process_def split: sum.splits option.splits prod.splits)
  with t show ?thesis by (auto simp: prefix_def)
qed

lemma report_stderr_stdout:
  "stdout_lines (fst (snd (report_stderr self ret err w))) = stdout_lines self"
  by (auto simp: report_stderr_def split: sum.splits)

lemma run_body_captures:
  assumes "run_body self pid w = Some (r, self', w')"
    and "procs w pid = Some p"
  shows "\<exists>taken. captured self self' taken \<and> prefix taken (enqueue_output (stdout_pipe p) [])"
proof (cases "args self")
  case Nil
  with assms(1) captured_nothing [of self] show ?thesis
    by (intro exI [of _ "[]"]) (simp add: run_body_def)
next
  case (Cons a0 rest)
  let ?w0 = "logger_info (logger self) (Running a0 pid (args self)) w"
  let ?q = "\<lparr>queue = [], unread = enqueue_output (stdout_pipe p) []\<rparr>"
  let ?w1 = "?w0\<lparr>threads := Suc (threads ?w0)\<rparr>"
  have sr: "start_reader pid ?w0 = (Inr ?q, ?w1)"
    using assms(2) by (simp add: start_reader_def logger_info_def emit_def)
  have okq: "lines_ok ?q"
    using enqueue_output_nonempty [of "[]" "stdout_pipe p"] by (simp add: lines_ok_def)
  have pq: "pending ?q = enqueue_output (stdout_pipe p) []" by (simp add: pending_def)
  from assms(1) Cons sr obtain r2 self2 q2 w2 where
    pl: "poll_process self pid ?q ?w1 = Some (r2, self2, q2, w2)"
    by (cases "poll_process self pid ?q ?w1") (auto simp: run_body_def)
  from poll_process_captures [OF pl] okq obtain t1 where
    t1: "captured self self2 t1" "pending ?q = t1 @ pending q2" "lines_ok q2"
    by auto
  show ?thesis
  proof (cases r2)
    case (Inl e)
    with assms(1) Cons sr pl have "self' = self2" by (simp add: run_body_def)
    with t1 pq show ?thesis by (auto simp: prefix_def)
  next
    case (Inr u)
    from assms(1) Cons sr pl Inr obtain r3 self3 w3 where
      cp: "cleanup_process self2 pid q2 w2 = Some (r3, self3, w3)"
      by (cases "cleanup_process self2 pid q2 w2") (auto simp: run_body_def)
    from cleanup_process_captures [OF cp t1(3)] obtain t2 where
      t2: "captured self2 self3 t2" "prefix t2 (pending q2)"
      by auto
    have c: "captured self self3 (t1 @ t2)" using t1(1) t2(1) by (rule captured_trans)
    have p: "prefix (t1 @ t2) (enqueue_output (stdout_pipe p) [])"
      using t1(2) t2(2) pq by (auto simp: prefix_def)
    have "stdout_lines self' = stdout_lines self3"
    proof (cases r3)
      case e3: (Inl e)
      with assms(1) Cons sr pl Inr cp show ?thesis by (simp add: run_body_def)
    next
      case er: (Inr err)
      show ?thesis
      proof (cases "procs w3 pid")
        case None
        with assms(1) Cons sr pl Inr cp er show ?thesis by (simp add: run_body_def)
      next
        case (Some p')
        with assms(1) Cons sr pl Inr cp er
        have "report_stderr self3 (returncode p') err w3 = (r, self', w')"
          by (simp add: run_body_def)
        then have "self' = fst (snd (report_stderr self3 (returncode p') err w3))" by simp
        then show ?thesis by (simp add: report_stderr_stdout)
      qed
    qed
    with c have "captured self self' (t1 @ t2)" by (simp add: captured_def)
    with p show ?thesis by blast
  qed
qed

lemma run_captures_prefix:
  assumes "run self w = Some (r, self', w')"
    and "os_exec w (args self) (cwd self) (env self) = Inr prog"
  shows "\<exists>taken. prefix taken (enqueue_output (prog_stdout prog) [])
     \<and> stdout_lines self' = stdout_lines self @ map decoded taken"
proof (cases "args self = []")
  case True
  with assms(1) show ?thesis
    by (intro exI [of _ "[]"]) (auto simp: run_def popen_def)
next
  case False
  let ?pid = "next_pid w"
  let ?p = "\<lparr>p_args = args self, returncode = None,
             exit_time = map_option (\<lambda>d. clock w + d) (prog_runtime prog),
             exit_status = prog_status prog, kill_effect = prog_kill prog,
             stdout_pipe = prog_stdout prog, stderr_pipe = prog_stderr prog\<rparr>"
  let ?w0 = "w\<lparr>next_pid := Suc ?pid, procs := (procs w)(?pid \<mapsto> ?p)\<rparr>"
  have po: "popen (args self) (cwd self) (env self) w = (Inr ?pid, ?w0)"
    using False assms(2) by (simp add: popen_def)
  from assms(1) po obtain r2 self2 w2 where rb: "run_body self ?pid ?w0 = Some (r2, self2, w2)"
    by (cases "run_body self ?pid ?w0") (auto simp: run_def)
  have p0: "procs ?w0 ?pid = Some ?p" by simp
  from run_body_captures [OF rb p0] obtain taken where
    t: "captured self self2 taken" "prefix taken (enqueue_output (prog_stdout prog) [])"
    by auto
  have "self' = self2"
    using assms(1) po rb by (auto simp: run_def split: option.splits sum.splits)
  with t show ?thesis by (auto simp: captured_def)
qed

text \<open>
  C2 at a schedule of the reader thread. \<^verbatim>\<open>echo hello\<close> writes one line; the reader
  thread has put nothing into the queue during the two polls that find the child running
  nor before the first \<^verbatim>\<open>queue.empty()\<close> of the cleanup. The drain of the cleanup sees
  an empty queue and stops: no line is captured, although the child wrote one.
\<close>

theorem undelivered_line_is_lost:
  "map_option (\<lambda>(r, self, w). (r, stdout_lines self))
     (run (CLICommand [''echo'', ''hello''] None root_logger None) (echo_world [0, 0, 0])) =
   Some (Inr (Some 0), [])
   \<and> enqueue_output (prog_stdout echo_hello) [] = [hello_bytes]"
  by code_simp

text \<open>
  C10 at the schedule where the reader thread puts the line before the first look at the
  queue. The status is 0 and the stderr lines are empty, but the captured stdout line is
  \<^verbatim>\<open>"hello\n"\<close>: the line feed that \<^verbatim>\<open>readline\<close> returns is kept, so the captured lines
  are not \<^verbatim>\<open>["hello"]\<close>.
\<close>

theorem echo_hello_keeps_line_feed:
  "map_option (\<lambda>(r, self, w). (r, stdout_lines self, stderr_lines self))
     (run (CLICommand [''echo'', ''hello''] None root_logger None) (echo_world [1])) =
   Some (Inr (Some 0), [[0x68, 0x65, 0x6C, 0x6C, 0x6F, 0x0A]], [])
   \<and> [[0x68, 0x65, 0x6C, 0x6C, 0x6F, 0x0A]] \<noteq> [[0x68, 0x65, 0x6C, 0x6C, 0x6F :: nat]]"
  by code_simp

subsection \<open>No process is left running\<close>

lemma sound_frame:
  "procs w' = procs w \<Longrightarrow> clock w' = clock w \<Longrightarrow> sound w' k = sound w k"
  by (simp add: sound_def)

lemma sound_emit: "sound (emit lg lv m w) k = sound w k"
  by (rule sound_frame) (simp_all add: emit_frame)

lemma sound_sched: "sched_only w w' \<Longrightarrow> sound w' k = sound w k"
  using sched_only_fields [of w w'] sound_frame [of w' w k] by simp

lemma sound_later:
  "sound w k \<Longrightarrow> procs w' k = procs w k \<Longrightarrow> clock w \<le> clock w' \<Longrightarrow> sound w' k"
  by (auto simp: sound_def proc_exited_def split: option.splits)

lemma sound_unreaped:
  "procs w k = Some p \<Longrightarrow> returncode p = None \<Longrightarrow> sound w k"
  by (simp add: sound_def)

lemma sound_reap:
  assumes "sound w k" "procs w pid = Some p" "proc_exited p (clock w)"
  shows "sound (reap pid p w) k"
proof (cases "k = pid")
  case True
  then show ?thesis using assms(3) by (simp add: sound_def reap_def proc_exited_def)
next
  case False
  have "procs (reap pid p w) k = procs w k" "clock w \<le> clock (reap pid p w)"
    using False by (simp_all add: reap_def)
  with assms(1) show ?thesis by (rule sound_later)
qed

lemma sound_poll: "sound w k \<Longrightarrow> sound (snd (popen_poll pid w)) k"
proof -
  assume s: "sound w k"
  show ?thesis
  proof (cases "procs w pid")
    case None
    then show ?thesis using s by (simp add: popen_poll_def)
  next
    case (Some p)
    show ?thesis
    proof (cases "returncode p")
      case rc: (Some c)
      then show ?thesis using s Some by (simp add: popen_poll_def)
    next
      case None
      show ?thesis
      proof (cases "proc_exited p (clock w)")
        case True
        then show ?thesis
          using Some None sound_reap [OF s Some True] by (simp add: popen_poll_def)
      next
        case False
        have "sound (w\<lparr>clock := Suc (clock w)\<rparr>) k"
          using s by (rule sound_later) simp_all
        then show ?thesis using Some None False by (simp add: popen_poll_def)
      qed
    qed
  qed
qed

lemma sound_kill: "sound w k \<Longrightarrow> sound (snd (popen_kill pid w)) k"
proof -
  assume s: "sound w k"
  show ?thesis
  proof (cases "procs w pid")
    case None
    then show ?thesis using s by (simp add: popen_kill_def)
  next
    case (Some p)
    show ?thesis
    proof (cases "returncode p")
      case rc: (Some c)
      then show ?thesis using s Some by (simp add: popen_kill_def)
    next
      case None
      show ?thesis
      proof (cases "proc_exited p (clock w)")
        case True
        then show ?thesis
          using Some None sound_reap [OF s Some True] by (simp add: popen_kill_def)
      next
        case False
        show ?thesis
        proof (cases "kill_effect p")
          case (Inl e)
          then show ?thesis using s Some None False by (simp add: popen_kill_def)
        next
          case (Inr eff)
          show ?thesis
          proof (cases eff)
            case none: None
            then show ?thesis using s Some None False Inr by (simp add: popen_kill_def)
          next
            case some: (Some ds)
            obtain d st where ds: "ds = (d, st)" by (cases ds)
            let ?w' = "w\<lparr>procs := (procs w)(pid \<mapsto> p\<lparr>exit_time := Some (clock w + d), exit_status := st\<rparr>)\<rparr>"
            have "sound ?w' k"
            proof (cases "k = pid")
              case True
              then show ?thesis using None by (simp add: sound_def)
            next
              case ne: False
              have "procs ?w' k = procs w k" "clock w \<le> clock ?w'" using ne by simp_all
              with s show ?thesis by (rule sound_later)
            qed
            then show ?thesis
              using s Some None False Inr some ds by (simp add: popen_kill_def)
          qed
        qed
      qed
    qed
  qed
qed

lemma sound_wait: "sound w k \<Longrightarrow> sound (snd (popen_wait t pid w)) k"
proof -
  assume s: "sound w k"
  have late: "sound (w\<lparr>clock := clock w + t\<rparr>) k"
    using s by (rule sound_later) simp_all
  show ?thesis
  proof (cases "procs w pid")
    case None
    then show ?thesis using s by (simp add: popen_wait_def)
  next
    case (Some p)
    show ?thesis
    proof (cases "returncode p")
      case rc: (Some c)
      then show ?thesis using s Some by (simp add: popen_wait_def)
    next
      case None
      show ?thesis
      proof (cases "exit_time p")
        case never: None
        then show ?thesis using Some None late by (simp add: popen_wait_def)
      next
        case at: (Some x)
        show ?thesis
        proof (cases "x \<le> clock w + t")
          case True
          let ?w1 = "w\<lparr>clock := max (clock w) x\<rparr>"
          have s1: "sound ?w1 k" using s by (rule sound_later) simp_all
          have p1: "procs ?w1 pid = Some p" using Some by simp
          have e1: "proc_exited p (clock ?w1)" using at by (simp add: proc_exited_def)
          from sound_reap [OF s1 p1 e1] show ?thesis
            using Some None at True by (simp add: popen_wait_def)
        next
          case False
          then show ?thesis using Some None at late by (simp add: popen_wait_def)
        qed
      qed
    qed
  qed
qed

lemma sound_capture: "sound w k \<Longrightarrow> sound (snd (snd (capture_line self line w))) k"
  by (auto simp: capture_line_def logger_info_def sound_emit split: sum.splits)

lemma sound_on_terminate: "sound w k \<Longrightarrow> sound (snd (on_terminate lg pid w)) k"
  by (auto simp: on_terminate_def on_terminate_body_def try_except_def logger_info_def
      logger_error_def sound_emit split: option.splits list.splits)

lemma sound_kill_body: "sound w k \<Longrightarrow> sound (snd (kill_body lg pid w)) k"
  by (auto simp: kill_body_def logger_info_def sound_emit sound_kill
      split: option.splits list.splits)

lemma sound_kill_loop: "sound w k \<Longrightarrow> sound (snd (kill_loop lg ps w)) k"
proof (induction ps arbitrary: w)
  case Nil
  then show ?case by simp
next
  case (Cons pid ps)
  obtain r w1 where kb: "kill_body lg pid w = (r, w1)" by (cases "kill_body lg pid w")
  have s1: "sound w1 k" using sound_kill_body [OF Cons.prems, of lg pid] kb by simp
  show ?case
  proof (cases r)
    case (Inl e)
    then show ?thesis
      using kb s1 Cons.IH [of "logger_error lg
        (Failure ''Unexpected exception ignored while terminating process, with stacktrace:'' e) w1"]
      by (simp add: try_except_def logger_error_def sound_emit)
  next
    case (Inr u)
    then show ?thesis using kb s1 Cons.IH [of w1] by (simp add: try_except_def)
  qed
qed

lemma sound_wait_loop: "sound w k \<Longrightarrow> sound (snd (wait_loop lg ps w)) k"
proof (induction ps arbitrary: w)
  case Nil
  then show ?case by simp
next
  case (Cons pid ps)
  obtain r w1 where pw: "popen_wait 30 pid w = (r, w1)" by (cases "popen_wait 30 pid w")
  have s1: "sound w1 k" using sound_wait [OF Cons.prems, of 30 pid] pw by simp
  show ?case
  proof (cases r)
    case (Inl e)
    then show ?thesis using pw s1 by simp
  next
    case (Inr c)
    obtain r2 w2 where ot: "on_terminate lg pid w1 = (r2, w2)" by (cases "on_terminate lg pid w1")
    have s2: "sound w2 k" using sound_on_terminate [OF s1, of lg pid] ot by simp
    show ?thesis using pw Inr ot s2 Cons.IH [of w2] by (cases r2) simp_all
  qed
qed

lemma sound_safe_kill: "sound w k \<Longrightarrow> sound (snd (safe_kill_processes ps lg w)) k"
proof -
  assume s: "sound w k"
  let ?lg = "default_logger lg"
  obtain r1 w1 where kl: "kill_loop ?lg ps w = (r1, w1)" by (cases "kill_loop ?lg ps w")
  have s1: "sound w1 k" using sound_kill_loop [OF s, of ?lg ps] kl by simp
  obtain r2 w2 where wl: "wait_loop ?lg ps w1 = (r2, w2)" by (cases "wait_loop ?lg ps w1")
  have s2: "sound w2 k" using sound_wait_loop [OF s1, of ?lg ps] wl by simp
  show ?thesis
    using kl wl s1 s2
    by (cases r1; cases r2)
       (simp_all add: safe_kill_processes_def try_except_def logger_error_def sound_emit)
qed

lemma sound_poll_process:
  assumes "poll_process self process q w = Some y"
  shows "sound w k \<longrightarrow> sound (snd (snd (snd y))) k"
proof (rule poll_process.raw_induct
    [where P = "\<lambda>self process q w y. sound w k \<longrightarrow> sound (snd (snd (snd y))) k", OF _ assms],
    goal_cases)
  case (1 f self process q w y)
  note IH = 1(1) and body = 1(2)
  show ?case
  proof (rule impI)
    assume s: "sound w k"
    obtain r1 w1 where pp: "popen_poll process w = (r1, w1)" by (cases "popen_poll process w")
    have s1: "sound w1 k" using sound_poll [OF s, of process] by (simp add: pp)
    obtain r2 q2 w2 where g: "get_nowait q w1 = (r2, q2, w2)" by (cases "get_nowait q w1") auto
    have s2: "sound w2 k" using sound_sched [OF get_nowait_spec(1) [OF g], of k] s1 by simp
    show "sound (snd (snd (snd y))) k"
    proof (cases r1)
      case (Inl e)
      with body pp s1 show ?thesis by auto
    next
      case (Inr rc)
      show ?thesis
      proof (cases rc)
        case (Some c)
        with body pp Inr s1 show ?thesis by auto
      next
        case None
        show ?thesis
        proof (cases r2)
          case None2: None
          with body pp Inr None g have "f self process q2 w2 = Some y" by simp
          from IH [OF this] s2 show ?thesis by simp
        next
          case (Some line)
          obtain r3 self3 w3 where cl: "capture_line self line w2 = (r3, self3, w3)"
            by (cases "capture_line self line w2") auto
          have s3: "sound w3 k" using sound_capture [OF s2, of self line] by (simp add: cl)
          show ?thesis
          proof (cases "line = []")
            case True
            with body pp Inr None g Some s2 show ?thesis by auto
          next
            case False
            show ?thesis
            proof (cases r3)
              case (Inl e)
              with body pp Inr None g Some False cl s3 show ?thesis by auto
            next
              case Inr3: (Inr u)
              with body pp Inr None g Some False cl
              have "f self3 process q2 w3 = Some y" by simp
              from IH [OF this] s3 show ?thesis by simp
            qed
          qed
        qed
      qed
    qed
  qed
qed

lemma sound_flush_queue:
  assumes "flush_queue self q w = Some y"
  shows "sound w k \<longrightarrow> sound (snd (snd (snd y))) k"
proof (rule flush_queue.raw_induct
    [where P = "\<lambda>self q w y. sound w k \<longrightarrow> sound (snd (snd (snd y))) k", OF _ assms],
    goal_cases)
  case (1 f self q w y)
  note IH = 1(1) and body = 1(2)
  show ?case
  proof (rule impI)
    assume s: "sound w k"
    obtain b q1 w1 where e: "queue_empty q w = (b, q1, w1)" by (cases "queue_empty q w") auto
    have s1: "sound w1 k" using sound_sched [OF queue_empty_spec(1) [OF e], of k] s by simp
    obtain r2 q2 w2 where g: "get_nowait q1 w1 = (r2, q2, w2)" by (cases "get_nowait q1 w1") auto
    have s2: "sound w2 k" using sound_sched [OF get_nowait_spec(1) [OF g], of k] s1 by simp
    show "sound (snd (snd (snd y))) k"
    proof (cases b)
      case True
      with body e s1 show ?thesis by auto
    next
      case False
      show ?thesis
      proof (cases r2)
        case None
        with body e False g have "f self q2 w2 = Some y" by simp
        from IH [OF this] s2 show ?thesis by simp
      next
        case (Some line)
        obtain r3 self3 w3 where cl: "capture_line self line w2 = (r3, self3, w3)"
          by (cases "capture_line self line w2") auto
        have s3: "sound w3 k" using sound_capture [OF s2, of self line] by (simp add: cl)
        show ?thesis
        proof (cases "line = []")
          case True
          with body e False g Some s2 show ?thesis by auto
        next
          case ne: False
          show ?thesis
          proof (cases r3)
            case (Inl err)
            with body e False g Some ne cl s3 show ?thesis by auto
          next
            case (Inr u)
            with body e False g Some ne cl have "f self3 q2 w3 = Some y" by simp
            from IH [OF this] s3 show ?thesis by simp
          qed
        qed
      qed
    qed
  qed
qed


lemma sound_stderr_read:
  assumes "stderr_read pid w = Some (r, w')" "sound w k"
  shows "sound w' k"
proof (cases "procs w pid")
  case None
  with assms show ?thesis by (simp add: stderr_read_def)
next
  case (Some p)
  show ?thesis
  proof (cases "exit_time p")
    case None
    with assms Some show ?thesis by (simp add: stderr_read_def await_exit_def)
  next
    case at: (Some t)
    have "sound (w\<lparr>clock := max (clock w) t\<rparr>) k"
      using assms(2) by (rule sound_later) simp_all
    with assms Some at show ?thesis by (auto simp: stderr_read_def await_exit_def)
  qed
qed

lemma sound_cleanup_process:
  assumes "cleanup_process self pid q w = Some (r, self', w')" "sound w k"
  shows "sound w' k"
proof -
  from assms(1) obtain r1 self1 q1 w1 where
    fq: "flush_queue self q w = Some (r1, self1, q1, w1)"
    by (cases "flush_queue self q w") (auto simp: cleanup_process_def)
  have s1: "sound w1 k" using sound_flush_queue [OF fq, of k] assms(2) by simp
  show ?thesis
  proof (cases r1)
    case (Inl e)
    with assms(1) fq s1 show ?thesis by (simp add: cleanup_process_def)
  next
    case (Inr u)
    from assms(1) fq Inr obtain r2 w2 where sr: "stderr_read pid w1 = Some (r2, w2)"
      by (cases "stderr_read pid w1") (auto simp: cleanup_process_def)
    have s2: "sound w2 k" using sound_stderr_read [OF sr s1] .
    show ?thesis
    proof (cases r2)
      case e: (Inl e)
      with assms(1) fq Inr sr s2 show ?thesis by (simp add: cleanup_process_def)
    next
      case err: (Inr err)
      obtain r3 w3 where sk: "safe_kill_processes [pid] (Some (logger self1)) w2 = (r3, w3)"
        by (cases "safe_kill_processes [pid] (Some (logger self1)) w2")
      have s3: "sound w3 k"
        using sound_safe_kill [OF s2, of "[pid]" "Some (logger self1)"] by (simp add: sk)
      from assms(1) fq Inr sr err sk s3 show ?thesis
        by (cases r3) (simp_all add: cleanup_process_def)
    qed
  qed
qed

lemma sound_report_stderr: "sound w k \<Longrightarrow> sound (snd (snd (report_stderr self ret err w))) k"
  by (auto simp: report_stderr_def logger_error_def logger_warning_def sound_emit
      split: sum.splits)

lemma sound_run_body:
  assumes "run_body self pid w = Some (r, self', w')" "sound w k"
  shows "sound w' k"
proof (cases "args self")
  case Nil
  with assms show ?thesis by (simp add: run_body_def)
next
  case (Cons a0 rest)
  let ?w0 = "logger_info (logger self) (Running a0 pid (args self)) w"
  have s0: "sound ?w0 k" using assms(2) by (simp add: logger_info_def sound_emit)
  obtain r1 w1 where sr: "start_reader pid ?w0 = (r1, w1)" by (cases "start_reader pid ?w0")
  have s1: "sound w1 k"
  proof -
    have "procs w1 k = procs ?w0 k" "clock ?w0 \<le> clock w1"
      using sr by (auto simp: start_reader_def split: option.splits)
    with s0 show ?thesis by (rule sound_later)
  qed
  show ?thesis
  proof (cases r1)
    case (Inl e)
    with assms(1) Cons sr s1 show ?thesis by (simp add: run_body_def)
  next
    case (Inr q)
    from assms(1) Cons sr Inr obtain r2 self2 q2 w2 where
      pl: "poll_process self pid q w1 = Some (r2, self2, q2, w2)"
      by (cases "poll_process self pid q w1") (auto simp: run_body_def)
    have s2: "sound w2 k" using sound_poll_process [OF pl, of k] s1 by simp
    show ?thesis
    proof (cases r2)
      case e: (Inl e)
      with assms(1) Cons sr Inr pl s2 show ?thesis by (simp add: run_body_def)
    next
      case u: (Inr u)
      from assms(1) Cons sr Inr pl u obtain r3 self3 w3 where
        cp: "cleanup_process self2 pid q2 w2 = Some (r3, self3, w3)"
        by (cases "cleanup_process self2 pid q2 w2") (auto simp: run_body_def)
      have s3: "sound w3 k" using sound_cleanup_process [OF cp s2] .
      show ?thesis
      proof (cases r3)
        case e3: (Inl e)
        with assms(1) Cons sr Inr pl u cp s3 show ?thesis by (simp add: run_body_def)
      next
        case err: (Inr err)
        show ?thesis
        proof (cases "procs w3 pid")
          case None
          with assms(1) Cons sr Inr pl u cp err s3 show ?thesis by (simp add: run_body_def)
        next
          case (Some p)
          have "sound (snd (snd (report_stderr self3 (returncode p) err w3))) k"
            using s3 by (rule sound_report_stderr)
          with assms(1) Cons sr Inr pl u cp err Some show ?thesis
            by (auto simp: run_body_def)
        qed
      qed
    qed
  qed
qed

lemma sound_popen:
  "popen a c e w = (Inr pid, w') \<Longrightarrow> sound w' pid"
  by (auto simp: popen_def sound_def split: if_splits sum.splits)

lemma popen_exit_reaps:
  assumes "popen_exit pid w = Some w'" "sound w pid"
  shows "\<not> running w' pid"
proof -
  from assms(2) obtain p where p: "procs w pid = Some p"
    and ex: "returncode p \<noteq> None \<longrightarrow> proc_exited p (clock w)"
    by (auto simp: sound_def)
  show ?thesis
  proof (cases "returncode p")
    case (Some c)
    with assms(1) p ex show ?thesis by (simp add: popen_exit_def running_def)
  next
    case None
    show ?thesis
    proof (cases "exit_time p")
      case never: None
      with assms(1) p None show ?thesis by (simp add: popen_exit_def await_exit_def)
    next
      case at: (Some t)
      with assms(1) p None show ?thesis
        by (auto simp: popen_exit_def await_exit_def running_def reap_def proc_exited_def)
    qed
  qed
qed

lemma run_reaps:
  assumes "run self w = Some (r, self', w')"
    and "fst (popen (args self) (cwd self) (env self) w) = Inr pid"
  shows "\<not> running w' pid"
proof -
  obtain w1 where po: "popen (args self) (cwd self) (env self) w = (Inr pid, w1)"
    using assms(2) by (cases "popen (args self) (cwd self) (env self) w") auto
  have s1: "sound w1 pid" using po by (rule sound_popen)
  from assms(1) po obtain r2 self2 w2 where rb: "run_body self pid w1 = Some (r2, self2, w2)"
    by (cases "run_body self pid w1") (auto simp: run_def)
  have s2: "sound w2 pid" using sound_run_body [OF rb s1] .
  from assms(1) po rb obtain w3 where pe: "popen_exit pid w2 = Some w3"
    by (cases "popen_exit pid w2") (auto simp: run_def)
  have nr: "\<not> running w3 pid" using popen_exit_reaps [OF pe s2] .
  show ?thesis
  proof (cases r2)
    case (Inl e)
    with assms(1) po rb pe have "w' = logger_error (logger self2) (Raised e) w3"
      by (auto simp: run_def)
    with nr show ?thesis
      using running_frame [of "logger_error (logger self2) (Raised e) w3" w3 pid]
      by (simp add: logger_error_def emit_frame)
  next
    case (Inr ret)
    with assms(1) po rb pe have "w' = w3" by (auto simp: run_def)
    with nr show ?thesis by simp
  qed
qed

text \<open>
  C7. Whenever \<^verbatim>\<open>run\<close> returns after a successful spawn, by a normal return or by
  raising, the child it spawned is no longer running. And the termination primitive
  applied to a process that has already ended returns normally, without waiting (the
  clock does not move), logs the attempt and the confirmed termination and no error, and
  leaves the process ended.
\<close>

theorem process_reaped_after_run:
  "(run self w = Some (r, self', w') \<and> fst (popen (args self) (cwd self) (env self) w) = Inr pid
      \<longrightarrow> \<not> running w' pid)
   \<and> (procs v k = Some p \<and> p_args p = a0 # rest \<and> proc_exited p (clock v) \<longrightarrow>
        (\<exists>v' c. safe_kill_processes [k] lg v = (Inr (), v') \<and> clock v' = clock v
           \<and> log v' = log v @ [(default_logger lg, INFO, Terminating a0 k),
                               (default_logger lg, INFO, Terminated a0 k (Some c))]
           \<and> \<not> running v' k))"
proof (intro conjI impI)
  assume "run self w = Some (r, self', w') \<and> fst (popen (args self) (cwd self) (env self) w) = Inr pid"
  then show "\<not> running w' pid" using run_reaps by blast
next
  assume h: "procs v k = Some p \<and> p_args p = a0 # rest \<and> proc_exited p (clock v)"
  then have p: "procs v k = Some p" and a: "p_args p = a0 # rest" and ex: "proc_exited p (clock v)"
    by simp_all
  let ?new = "\<lambda>c. [(default_logger lg, INFO, Terminating a0 k),
                    (default_logger lg, INFO, Terminated a0 k (Some c))]"
  show "\<exists>v' c. safe_kill_processes [k] lg v = (Inr (), v') \<and> clock v' = clock v
           \<and> log v' = log v @ ?new c \<and> \<not> running v' k"
  proof (cases "returncode p")
    case (Some c)
    let ?v' = "v\<lparr>log := log v @ ?new c\<rparr>"
    have "safe_kill_processes [k] lg v = (Inr (), ?v')"
      using safe_kill_reaped [OF p a Some] .
    moreover have "\<not> running ?v' k" using p ex by (simp add: running_def)
    ultimately show ?thesis
      by (intro exI [of _ ?v'] exI [of _ c]) simp
  next
    case None
    let ?v' = "v\<lparr>procs := (procs v)(k \<mapsto> p\<lparr>returncode := Some (exit_status p)\<rparr>),
                  log := log v @ ?new (exit_status p)\<rparr>"
    have "safe_kill_processes [k] lg v = (Inr (), ?v')"
      using safe_kill_unreaped [OF p a None ex] .
    moreover have "\<not> running ?v' k" using ex by (simp add: running_def proc_exited_def)
    ultimately show ?thesis
      by (intro exI [of _ ?v'] exI [of _ "exit_status p"]) simp
  qed
qed

theorem process_reaped_after_run_witness:
  "fst (popen [''echo'', ''hello''] None None (echo_world [1])) = Inr 100
   \<and> run (CLICommand [''echo'', ''hello''] None root_logger None) (echo_world [1]) \<noteq> None
   \<and> \<not> running (snd (snd (the (run (CLICommand [''echo'', ''hello''] None root_logger None)
                                    (echo_world [1]))))) 100
   \<and> procs finished_world 7 = Some finished \<and> p_args finished = [''tool'']
   \<and> proc_exited finished (clock finished_world)
   \<and> fst (safe_kill_processes [7] None finished_world) = Inr ()
   \<and> clock (snd (safe_kill_processes [7] None finished_world)) = clock finished_world
   \<and> \<not> running (snd (safe_kill_processes [7] None finished_world)) 7"
proof -
  let ?self = "CLICommand [''echo'', ''hello''] None root_logger None"
  have po: "fst (popen (args ?self) (cwd ?self) (env ?self) (echo_world [1])) = Inr 100"
    by (simp add: popen_def CLICommand_def echo_world_def example_exec_def)
  have ne: "run ?self (echo_world [1]) \<noteq> None"
    by code_simp
  then obtain r self' w' where ru: "run ?self (echo_world [1]) = Some (r, self', w')"
    by (cases "run ?self (echo_world [1])") auto
  have f: "procs finished_world 7 = Some finished" "p_args finished = ''tool'' # []"
    "proc_exited finished (clock finished_world)"
    by (simp_all add: finished_world_def finished_def proc_exited_def)
  note t = process_reaped_after_run
    [of ?self "echo_world [1]" r self' w' 100 finished_world 7 finished "''tool''" "[]" None]
  from t ru po have a: "\<not> running w' 100" by blast
  from t f obtain v' where k: "safe_kill_processes [7] None finished_world = (Inr (), v')"
    "clock v' = clock finished_world" "\<not> running v' 7"
    by blast
  from a ru po ne f k show ?thesis by (simp add: CLICommand_def)
qed

end
